theory Spec2Isabelle
  imports Main
begin

section \<open>The provenance locator of oc\_utils\<close>

text \<open>
  The repository has one function, \<^verbatim>\<open>get_provenance_graph(entity_iri, data_root)\<close> in
  \<^verbatim>\<open>src/oc_utils/src.py\<close>. It splits the last segment of the IRI into a supplier prefix
  and a sequential number, walks three levels of directories under \<^verbatim>\<open>data_root\<close> and
  scans the JSON member \<^verbatim>\<open>se.json\<close> of the archive \<^verbatim>\<open>prov/se.zip\<close> it arrives at.

  Conventions of the embedding.
  \<^item> A Python \<^verbatim>\<open>str\<close> is a \<open>string\<close>; a \<open>char\<close> is read as the code point of the same
    number, so the strings of the model are those over U+0000..U+00FF.
  \<^item> An exception is a value \<open>Inl e\<close>; the function's \<^verbatim>\<open>return None\<close> is \<open>Inr None\<close> and
    \<^verbatim>\<open>return obj\<close> is \<open>Inr (Some obj)\<close>.
  \<^item> The file system is a tree of nodes. What a path names is a \<open>node option\<close>, with
    \<open>None\<close> for a path that names nothing. The order of a directory's entries is the
    order in which \<^verbatim>\<open>os.listdir\<close> reports them.
  \<^item> Unzipping and JSON parsing are not modelled: an archive node carries, for each member
    name, the value \<^verbatim>\<open>json.load\<close> produces for it, or \<open>None\<close> where \<^verbatim>\<open>json.load\<close> raises.
\<close>

subsection \<open>Exceptions\<close>

text \<open>
  \<open>OSError\<close> stands for its subclasses raised by \<^verbatim>\<open>os.listdir\<close> and \<^verbatim>\<open>open\<close>
  (FileNotFoundError, NotADirectoryError, IsADirectoryError). \<open>JSONDecodeError\<close> is what
  \<^verbatim>\<open>json.load\<close> raises; in Python it is a subclass of ValueError, kept apart here from the
  ValueError of \<^verbatim>\<open>int\<close>.
\<close>

datatype error = ValueError | TypeError | KeyError | OSError | BadZipFile | JSONDecodeError

subsection \<open>String builtins\<close>

text \<open>\<^verbatim>\<open>s.split(sep)\<close> for a one-character separator: never the empty list.\<close>

fun py_split :: "char \<Rightarrow> string \<Rightarrow> string list" where
  "py_split sep [] = [[]]"
| "py_split sep (c # cs) =
     (if c = sep then [] # py_split sep cs
      else (case py_split sep cs of
              [] \<Rightarrow> [[c]]
            | w # ws \<Rightarrow> (c # w) # ws))"

text \<open>\<^verbatim>\<open>s.find(c, start)\<close>: the least index from \<open>start\<close> on that holds \<open>c\<close>, or \<open>-1\<close>.\<close>

definition py_find :: "string \<Rightarrow> char \<Rightarrow> nat \<Rightarrow> int" where
  "py_find s c start =
     (case List.find (\<lambda>i. s ! i = c) [start ..< length s] of
        None \<Rightarrow> - 1
      | Some i \<Rightarrow> int i)"

text \<open>\<^verbatim>\<open>s.removeprefix(p)\<close>.\<close>

definition removeprefix :: "string \<Rightarrow> string \<Rightarrow> string" where
  "removeprefix s p = (if take (length p) s = p then drop (length p) s else s)"

text \<open>
  \<^verbatim>\<open>int(s)\<close> in base ten. Leading and trailing white space is dropped (for code points
  below 256: TAB, LF, VT, FF, CR, SPACE, U+0085 and U+00A0), then comes an optional sign,
  then decimal digits, where one underscore may stand between two digits. More than
  4300 digits are refused (the interpreter's default limit). Everything else raises
  ValueError, which is \<open>None\<close> here.
\<close>

definition py_space :: "char \<Rightarrow> bool" where
  "py_space c = (of_char c \<in> {9, 10, 11, 12, 13, 32, 133, 160 :: nat})"

definition is_decimal :: "char \<Rightarrow> bool" where
  "is_decimal c = (48 \<le> (of_char c :: nat) \<and> (of_char c :: nat) \<le> 57)"

definition digit_val :: "char \<Rightarrow> nat" where
  "digit_val c = of_char c - 48"

definition py_strip :: "string \<Rightarrow> string" where
  "py_strip s = rev (dropWhile py_space (rev (dropWhile py_space s)))"

fun parse_digits :: "nat \<Rightarrow> string \<Rightarrow> nat option" where
  "parse_digits acc [] = Some acc"
| "parse_digits acc [c] =
     (if is_decimal c then Some (10 * acc + digit_val c) else None)"
| "parse_digits acc (c # d # cs) =
     (if c = CHR ''_'' then
        (if is_decimal d then parse_digits (10 * acc + digit_val d) cs else None)
      else if is_decimal c then parse_digits (10 * acc + digit_val c) (d # cs)
      else None)"

definition int_max_str_digits :: nat where
  "int_max_str_digits = 4300"

definition parse_unsigned :: "string \<Rightarrow> nat option" where
  "parse_unsigned s =
     (case s of
        [] \<Rightarrow> None
      | c # cs \<Rightarrow>
          if \<not> is_decimal c then None
          else if int_max_str_digits < length (filter is_decimal s) then None
          else parse_digits (digit_val c) cs)"

definition py_int :: "string \<Rightarrow> int option" where
  "py_int s =
     (case py_strip s of
        [] \<Rightarrow> None
      | c # cs \<Rightarrow>
          if c = CHR ''+'' then map_option int (parse_unsigned cs)
          else if c = CHR ''-'' then map_option (\<lambda>n. - int n) (parse_unsigned cs)
          else map_option int (parse_unsigned (c # cs)))"

text \<open>
  \<^verbatim>\<open>s.isdigit()\<close>: not empty, and every character a digit. Below code point 256 the
  digits are \<open>0\<close> to \<open>9\<close> and the superscripts U+00B2, U+00B3 and U+00B9.
\<close>

definition isdigit_char :: "char \<Rightarrow> bool" where
  "isdigit_char c = (is_decimal c \<or> of_char c \<in> {178, 179, 185 :: nat})"

definition isdigit :: "string \<Rightarrow> bool" where
  "isdigit s = (s \<noteq> [] \<and> list_all isdigit_char s)"

subsection \<open>JSON values and the file system\<close>

text \<open>
  What \<^verbatim>\<open>json.load\<close> returns. A dict is the list of its items in insertion order;
  \<open>map_of\<close> looks a key up. A float is kept as two integers, of which nothing is used.
\<close>

datatype json =
    JNull
  | JBool bool
  | JInt int
  | JFloat int int
  | JStr string
  | JArr "json list"
  | JObj "(string \<times> json) list"

text \<open>
  A directory lists its entries by name; a zip archive lists its members by name, each
  with the parsed JSON value of its content (\<open>None\<close>: \<^verbatim>\<open>json.load\<close> raises on it);
  \<open>File\<close> is any other file.
\<close>

datatype node =
    Dir "(string \<times> node) list"
  | ZipFile "(string \<times> json option) list"
  | File

text \<open>\<^verbatim>\<open>os.listdir(path)\<close>.\<close>

fun listdir :: "node option \<Rightarrow> error + string list" where
  "listdir (Some (Dir es)) = Inr (map fst es)"
| "listdir _ = Inl OSError"

text \<open>What \<^verbatim>\<open>os.path.join(path, name)\<close> names, for a name reported by a listing.\<close>

fun path_join :: "node option \<Rightarrow> string \<Rightarrow> node option" where
  "path_join (Some (Dir es)) name = map_of es name"
| "path_join _ name = None"

subsection \<open>Identifier parsing (lines 15 to 17)\<close>

definition parse_identifier :: "string \<Rightarrow> error + (string \<times> int)" where
  "parse_identifier entity_iri =
     (let digits = last (py_split CHR ''/'' entity_iri);
          supplier_prefix = take (nat (py_find digits CHR ''0'' 1 + 1)) digits
      in case py_int (removeprefix digits supplier_prefix) of
           None \<Rightarrow> Inl ValueError
         | Some sequential_number \<Rightarrow> Inr (supplier_prefix, sequential_number))"

subsection \<open>Shard selection (lines 21 to 22 and 24 to 25)\<close>

text \<open>
  \<^verbatim>\<open>sorted(names, key=lambda x: int(x))\<close>: the key of every name is computed first, so
  one name that \<^verbatim>\<open>int\<close> refuses raises ValueError; the sort is stable.
\<close>

definition sorted_by_int :: "string list \<Rightarrow> error + string list" where
  "sorted_by_int names =
     (case those (map py_int names) of
        None \<Rightarrow> Inl ValueError
      | Some keys \<Rightarrow> Inr (map snd (sort_key fst (zip keys names))))"

text \<open>
  \<^verbatim>\<open>for x in xs: if sequential_number < int(x): <body>; break\<close>: the body runs for the
  first element that passes the test, and for no other.
\<close>

fun first_greater :: "int \<Rightarrow> string list \<Rightarrow> error + string option" where
  "first_greater sequential_number [] = Inr None"
| "first_greater sequential_number (x # xs) =
     (case py_int x of
        None \<Rightarrow> Inl ValueError
      | Some k \<Rightarrow> if sequential_number < k then Inr (Some x)
                  else first_greater sequential_number xs)"

definition select_shard :: "int \<Rightarrow> string list \<Rightarrow> error + string option" where
  "select_shard sequential_number names =
     (case sorted_by_int names of
        Inl e \<Rightarrow> Inl e
      | Inr xs \<Rightarrow> first_greater sequential_number xs)"

subsection \<open>Reading the archive (lines 28 to 33)\<close>

text \<open>\<^verbatim>\<open>obj['@id']\<close>: only a dict can be subscripted by a string.\<close>

fun subscript_id :: "json \<Rightarrow> error + json" where
  "subscript_id (JObj kvs) =
     (case map_of kvs ''@id'' of None \<Rightarrow> Inl KeyError | Some v \<Rightarrow> Inr v)"
| "subscript_id _ = Inl TypeError"

text \<open>\<^verbatim>\<open>for obj in data: if obj['@id'] == entity_iri + '/prov/': return obj\<close>.\<close>

fun scan_data :: "string \<Rightarrow> json list \<Rightarrow> error + json option" where
  "scan_data entity_iri [] = Inr None"
| "scan_data entity_iri (obj # rest) =
     (case subscript_id obj of
        Inl e \<Rightarrow> Inl e
      | Inr v \<Rightarrow> if v = JStr (entity_iri @ ''/prov/'') then Inr (Some obj)
                  else scan_data entity_iri rest)"

text \<open>
  What \<^verbatim>\<open>for obj in data\<close> iterates over: the elements of a list, the keys of a dict,
  the characters of a string; anything else is not iterable.
\<close>

fun iterate :: "json \<Rightarrow> error + json list" where
  "iterate (JArr xs) = Inr xs"
| "iterate (JObj kvs) = Inr (map (\<lambda>kv. JStr (fst kv)) kvs)"
| "iterate (JStr s) = Inr (map (\<lambda>c. JStr [c]) s)"
| "iterate _ = Inl TypeError"

text \<open>
  \<^verbatim>\<open>with ZipFile(os.path.join(prov_dir_path, 'se.zip')) as archive\<close> and its body, for the
  level-3 directory \<open>dir3\<close>.
\<close>

definition open_archive :: "string \<Rightarrow> node option \<Rightarrow> error + json option" where
  "open_archive entity_iri dir3 =
     (case path_join (path_join dir3 ''prov'') ''se.zip'' of
        None \<Rightarrow> Inl OSError
      | Some (Dir es) \<Rightarrow> Inl OSError
      | Some File \<Rightarrow> Inl BadZipFile
      | Some (ZipFile members) \<Rightarrow>
          (case map_of members ''se.json'' of
             None \<Rightarrow> Inl KeyError
           | Some None \<Rightarrow> Inl JSONDecodeError
           | Some (Some data) \<Rightarrow>
               (case iterate data of
                  Inl e \<Rightarrow> Inl e
                | Inr objs \<Rightarrow> scan_data entity_iri objs)))"

subsection \<open>The descent (lines 18 to 36)\<close>

text \<open>The loop over \<^verbatim>\<open>subsubdir\<close>, in the level-2 directory \<open>dir2\<close>.\<close>

definition descend_dir2 :: "string \<Rightarrow> int \<Rightarrow> node option \<Rightarrow> error + json option" where
  "descend_dir2 entity_iri sequential_number dir2 =
     (case listdir dir2 of
        Inl e \<Rightarrow> Inl e
      | Inr names \<Rightarrow>
          (case select_shard sequential_number (filter isdigit names) of
             Inl e \<Rightarrow> Inl e
           | Inr None \<Rightarrow> Inr None
           | Inr (Some subsubdir) \<Rightarrow> open_archive entity_iri (path_join dir2 subsubdir)))"

text \<open>The loop over \<^verbatim>\<open>subdir\<close>, in the level-1 directory \<open>dir1\<close>.\<close>

definition descend_dir1 :: "string \<Rightarrow> int \<Rightarrow> node option \<Rightarrow> error + json option" where
  "descend_dir1 entity_iri sequential_number dir1 =
     (case listdir dir1 of
        Inl e \<Rightarrow> Inl e
      | Inr names \<Rightarrow>
          (case select_shard sequential_number names of
             Inl e \<Rightarrow> Inl e
           | Inr None \<Rightarrow> Inr None
           | Inr (Some subdir) \<Rightarrow>
               descend_dir2 entity_iri sequential_number (path_join dir1 subdir)))"

text \<open>
  The loop over \<^verbatim>\<open>dir\<close>, the names listed in \<^verbatim>\<open>data_root\<close>. It has no \<^verbatim>\<open>break\<close>: when
  the descent under a matching name ends without a return, the loop goes on.
\<close>

fun scan_root :: "string \<Rightarrow> string \<Rightarrow> int \<Rightarrow> node option \<Rightarrow> string list \<Rightarrow> error + json option" where
  "scan_root entity_iri supplier_prefix sequential_number data_root [] = Inr None"
| "scan_root entity_iri supplier_prefix sequential_number data_root (dir # dirs) =
     (if dir = supplier_prefix then
        (case descend_dir1 entity_iri sequential_number (path_join data_root dir) of
           Inl e \<Rightarrow> Inl e
         | Inr (Some obj) \<Rightarrow> Inr (Some obj)
         | Inr None \<Rightarrow> scan_root entity_iri supplier_prefix sequential_number data_root dirs)
      else scan_root entity_iri supplier_prefix sequential_number data_root dirs)"

definition get_provenance_graph :: "string \<Rightarrow> node option \<Rightarrow> error + json option" where
  "get_provenance_graph entity_iri data_root =
     (case parse_identifier entity_iri of
        Inl e \<Rightarrow> Inl e
      | Inr (supplier_prefix, sequential_number) \<Rightarrow>
          (case listdir data_root of
             Inl e \<Rightarrow> Inl e
           | Inr names \<Rightarrow>
               scan_root entity_iri supplier_prefix sequential_number data_root names))"

section \<open>Constructed shard trees\<close>

text \<open>
  The trees on which the scenarios of the specification are run. A provenance object
  carries the \<^verbatim>\<open>@id\<close> of its entity and a label that tells the objects of different
  shards apart; \<open>shard objs\<close> is a level-3 directory whose archive holds \<open>objs\<close>.
\<close>

definition prov_object :: "string \<Rightarrow> string \<Rightarrow> json" where
  "prov_object entity_iri label =
     JObj [(''@id'', JStr (entity_iri @ ''/prov/'')), (''label'', JStr label)]"

definition shard :: "json list \<Rightarrow> node" where
  "shard objs =
     Dir [(''prov'', Dir [(''se.zip'', ZipFile [(''se.json'', Some (JArr objs))])])]"

text \<open>Level 1 \<open>060\<close>; level 2 \<open>6000\<close> and \<open>1000\<close>; level 3 \<open>5300\<close> and \<open>5100\<close>.\<close>

definition scenario_tree :: "string \<Rightarrow> node" where
  "scenario_tree entity_iri =
     Dir [(''060'', Dir
       [(''6000'', Dir
          [(''5300'', shard [prov_object entity_iri ''6000/5300'']),
           (''5100'', shard [prov_object entity_iri ''6000/5100''])]),
        (''1000'', Dir
          [(''5300'', shard [prov_object entity_iri ''1000/5300'']),
           (''5100'', shard [prov_object entity_iri ''1000/5100''])])])]"

text \<open>Level 2 \<open>1000\<close>, \<open>100\<close> and \<open>500\<close>, listed in that order, each with one shard \<open>9999\<close>.\<close>

definition level2_tree :: "string \<Rightarrow> node" where
  "level2_tree entity_iri =
     Dir [(''060'', Dir
       [(''1000'', Dir [(''9999'', shard [prov_object entity_iri ''1000''])]),
        (''100'', Dir [(''9999'', shard [prov_object entity_iri ''100''])]),
        (''500'', Dir [(''9999'', shard [prov_object entity_iri ''500''])])])]"

text \<open>Level 3 \<open>20\<close> and \<open>10\<close> beside the entries \<open>prov\<close> and \<open>readme\<close>.\<close>

definition level3_entries :: "string \<Rightarrow> (string \<times> node) list" where
  "level3_entries entity_iri =
     [(''prov'', Dir []),
      (''20'', shard [prov_object entity_iri ''20'']),
      (''readme'', File),
      (''10'', shard [prov_object entity_iri ''10''])]"

definition level3_tree :: "string \<Rightarrow> node" where
  "level3_tree entity_iri = Dir [(''060'', Dir [(''100'', Dir (level3_entries entity_iri))])]"

text \<open>
  A root that lists, beside \<open>060\<close>, names that are no numbers; its one archive holds
  the objects of two entities.
\<close>

definition mixed_root_tree :: "string \<Rightarrow> string \<Rightarrow> node" where
  "mixed_root_tree other_iri entity_iri =
     Dir [(''readme'', File),
          (''index.json'', File),
          (''060'', Dir [(''6000'', Dir
            [(''5300'', shard [prov_object other_iri ''other'',
                               prov_object entity_iri ''wanted''])])])]"

text \<open>A level-1 directory that lists, beside \<open>6000\<close>, a name that is no number.\<close>

definition mixed_level2_tree :: "string \<Rightarrow> node" where
  "mixed_level2_tree entity_iri =
     Dir [(''060'', Dir
       [(''6000'', Dir [(''5300'', shard [prov_object entity_iri ''6000/5300''])]),
        (''readme'', File)])]"

text \<open>An archive that holds two objects of the same \<^verbatim>\<open>@id\<close>, after one of another entity.\<close>

definition duplicates_tree :: "string \<Rightarrow> string \<Rightarrow> node" where
  "duplicates_tree other_iri entity_iri =
     Dir [(''060'', Dir [(''6000'', Dir
       [(''5300'', shard [prov_object other_iri ''other'',
                          prov_object entity_iri ''first'',
                          prov_object entity_iri ''second''])])])]"

section \<open>Auxiliary facts\<close>

subsection \<open>Splitting, sorting and selection\<close>

lemma py_split_not_Nil: "py_split sep s \<noteq> []"
  by (induction s) (auto split: list.splits)

lemma py_split_plain: "sep \<notin> set s \<Longrightarrow> py_split sep s = [s]"
  by (induction s) auto

lemma py_split_append_shape:
  "sep \<notin> set s \<Longrightarrow> \<exists>w v ws. py_split sep (p @ sep # s) = w # v # ws \<and> last (v # ws) = s"
proof (induction p)
  case Nil
  then show ?case by (simp add: py_split_plain)
next
  case (Cons c p)
  then obtain w v ws where "py_split sep (p @ sep # s) = w # v # ws" "last (v # ws) = s"
    by blast
  then show ?case by simp
qed

lemma last_py_split_append:
  "sep \<notin> set s \<Longrightarrow> last (py_split sep (p @ sep # s)) = s"
  using py_split_append_shape[of sep s p] by auto

lemma those_map_Some:
  "those (map f xs) = Some ys \<longleftrightarrow> map f xs = map Some ys"
  by (induction xs arbitrary: ys) (auto split: option.splits)

lemma those_map_None:
  "those (map f xs) = None \<longleftrightarrow> (\<exists>x\<in>set xs. f x = None)"
  by (induction xs) (auto split: option.splits)

lemma first_greater_pairs:
  "\<forall>p\<in>set ps. py_int (snd p) = Some (fst p) \<Longrightarrow>
   first_greater seq (map snd ps) = Inr (map_option snd (List.find (\<lambda>p. seq < fst p) ps))"
  by (induction ps) auto

lemma find_sorted_least:
  "sorted (map fst ps) \<Longrightarrow> List.find (\<lambda>p. seq < fst p) ps = Some q \<Longrightarrow>
   q \<in> set ps \<and> seq < fst q \<and> (\<forall>p\<in>set ps. seq < fst p \<longrightarrow> fst q \<le> fst p)"
  for seq :: int
  by (induction ps) (auto split: if_splits)

lemma sorted_by_int_error:
  "\<exists>n\<in>set names. py_int n = None \<Longrightarrow> sorted_by_int names = Inl ValueError"
  by (simp add: sorted_by_int_def those_map_None[THEN iffD2])

lemma select_shard_error:
  "\<exists>n\<in>set names. py_int n = None \<Longrightarrow> select_shard seq names = Inl ValueError"
  by (simp add: select_shard_def sorted_by_int_error)

lemma zip_keys_consistent:
  assumes "map py_int names = map Some keys"
  shows "\<forall>p\<in>set (zip keys names). py_int (snd p) = Some (fst p)"
    and "snd ` set (zip keys names) = set names"
proof -
  have len: "length keys = length names"
    using assms by (metis length_map)
  show "\<forall>p\<in>set (zip keys names). py_int (snd p) = Some (fst p)"
  proof
    fix p assume "p \<in> set (zip keys names)"
    then obtain i where i: "i < length names" "p = (keys ! i, names ! i)"
      using len by (auto simp: set_zip)
    have "map py_int names ! i = map Some keys ! i" using assms by simp
    with i len show "py_int (snd p) = Some (fst p)" by simp
  qed
  show "snd ` set (zip keys names) = set names"
    using len by (metis map_snd_zip set_map)
qed

lemma select_shard_parsed:
  assumes "\<forall>n\<in>set names. py_int n \<noteq> None"
  shows "select_shard seq names = Inr None \<and> (\<forall>n\<in>set names. \<forall>k. py_int n = Some k \<longrightarrow> k \<le> seq)
       \<or> (\<exists>n k. select_shard seq names = Inr (Some n) \<and> n \<in> set names \<and> py_int n = Some k \<and> seq < k
             \<and> (\<forall>m\<in>set names. \<forall>j. py_int m = Some j \<and> seq < j \<longrightarrow> k \<le> j))"
proof -
  from assms have "those (map py_int names) \<noteq> None"
    by (simp add: those_map_None)
  then obtain keys where keys: "those (map py_int names) = Some keys" by auto
  then have m: "map py_int names = map Some keys" by (simp add: those_map_Some)
  define ps where "ps = sort_key fst (zip keys names)"
  have cons: "\<forall>p\<in>set ps. py_int (snd p) = Some (fst p)"
    using zip_keys_consistent(1)[OF m] by (simp add: ps_def)
  have names: "snd ` set ps = set names"
    using zip_keys_consistent(2)[OF m] by (simp add: ps_def)
  have srt: "sorted (map fst ps)" by (simp add: ps_def)
  have sel: "select_shard seq names = Inr (map_option snd (List.find (\<lambda>p. seq < fst p) ps))"
    using keys first_greater_pairs[OF cons, of seq]
    by (simp add: select_shard_def sorted_by_int_def ps_def)
  show ?thesis
  proof (cases "List.find (\<lambda>p. seq < fst p) ps")
    case None
    then have "\<forall>p\<in>set ps. \<not> seq < fst p" by (auto simp: find_None_iff)
    then have "\<forall>n\<in>set names. \<forall>k. py_int n = Some k \<longrightarrow> k \<le> seq"
      using cons names by force
    with None sel show ?thesis by simp
  next
    case (Some q)
    from find_sorted_least[OF srt Some]
    have q: "q \<in> set ps" "seq < fst q" "\<forall>p\<in>set ps. seq < fst p \<longrightarrow> fst q \<le> fst p" by auto
    have "snd q \<in> set names" using q(1) names by force
    moreover have "py_int (snd q) = Some (fst q)" using cons q(1) by simp
    moreover have "\<forall>m\<in>set names. \<forall>j. py_int m = Some j \<and> seq < j \<longrightarrow> fst q \<le> j"
    proof (intro ballI allI impI)
      fix m j assume "m \<in> set names" "py_int m = Some j \<and> seq < j"
      then obtain p where "p \<in> set ps" "snd p = m" using names by force
      with cons \<open>py_int m = Some j \<and> seq < j\<close> have "fst p = j" by auto
      with q(3) \<open>p \<in> set ps\<close> \<open>py_int m = Some j \<and> seq < j\<close> show "fst q \<le> j" by auto
    qed
    ultimately show ?thesis using sel Some q(2) by auto
  qed
qed

lemma scan_root_eq:
  "scan_root iri p seq root names =
     (if p \<in> set names then descend_dir1 iri seq (path_join root p) else Inr None)"
  by (induction names) (auto split: sum.splits option.splits)

lemma get_provenance_graph_Dir:
  "parse_identifier iri = Inr (p, seq) \<Longrightarrow>
   get_provenance_graph iri (Some (Dir es)) =
     (if p \<in> fst ` set es then descend_dir1 iri seq (map_of es p) else Inr None)"
  by (simp add: get_provenance_graph_def scan_root_eq)

lemma map_of_filter_fst:
  "P n \<Longrightarrow> map_of (filter (\<lambda>e. P (fst e)) es) n = map_of es n"
  by (induction es) auto

subsection \<open>Scanning the archive\<close>

lemma scan_data_first:
  "\<forall>x\<in>set pre. \<exists>v. subscript_id x = Inr v \<and> v \<noteq> JStr (iri @ ''/prov/'') \<Longrightarrow>
   subscript_id obj = Inr (JStr (iri @ ''/prov/'')) \<Longrightarrow>
   scan_data iri (pre @ obj # post) = Inr (Some obj)"
  by (induction pre) auto

lemma scan_data_none:
  "\<forall>x\<in>set objs. \<exists>v. subscript_id x = Inr v \<and> v \<noteq> JStr (iri @ ''/prov/'') \<Longrightarrow>
   scan_data iri objs = Inr None"
  by (induction objs) auto

lemma scan_data_unique:
  "obj \<in> set objs \<Longrightarrow>
   subscript_id obj = Inr (JStr (iri @ ''/prov/'')) \<Longrightarrow>
   \<forall>x\<in>set objs. \<exists>v. subscript_id x = Inr v \<Longrightarrow>
   \<forall>x\<in>set objs. subscript_id x = Inr (JStr (iri @ ''/prov/'')) \<longrightarrow> x = obj \<Longrightarrow>
   scan_data iri objs = Inr (Some obj)"
proof (induction objs)
  case Nil
  then show ?case by simp
next
  case (Cons x xs)
  from Cons.prems(3) obtain v where v: "subscript_id x = Inr v" by auto
  show ?case
  proof (cases "v = JStr (iri @ ''/prov/'')")
    case True
    with v Cons.prems(4) have "x = obj" by simp
    then show ?thesis using Cons.prems(2) by simp
  next
    case False
    with v Cons.prems(1,2) have mem: "obj \<in> set xs" by auto
    have wf: "\<forall>x\<in>set xs. \<exists>v. subscript_id x = Inr v"
      using Cons.prems(3) by simp
    have uniq: "\<forall>x\<in>set xs. subscript_id x = Inr (JStr (iri @ ''/prov/'')) \<longrightarrow> x = obj"
      using Cons.prems(4) by simp
    have "scan_data iri xs = Inr (Some obj)"
      by (rule Cons.IH[OF mem Cons.prems(2) wf uniq])
    with v False show ?thesis by simp
  qed
qed

subsection \<open>The descent as a whole\<close>

lemma map_of_Some_in_fst: "map_of es k = Some v \<Longrightarrow> k \<in> fst ` set es"
  by (induction es) (auto split: if_splits)

lemma descent_reaches_dir1:
  assumes "parse_identifier iri = Inr (p, seq)"
    and "listdir data_root = Inr names1"
    and "p \<in> set names1"
    and "dir1 = path_join data_root p"
  shows "get_provenance_graph iri data_root = descend_dir1 iri seq dir1"
  using assms by (simp add: get_provenance_graph_def scan_root_eq)

lemma descent_reaches_dir2:
  assumes "parse_identifier iri = Inr (p, seq)"
    and "listdir data_root = Inr names1"
    and "p \<in> set names1"
    and "dir1 = path_join data_root p"
    and "listdir dir1 = Inr names2"
    and "select_shard seq names2 = Inr (Some n2)"
    and "dir2 = path_join dir1 n2"
  shows "get_provenance_graph iri data_root = descend_dir2 iri seq dir2"
proof -
  have "get_provenance_graph iri data_root = descend_dir1 iri seq dir1"
    by (rule descent_reaches_dir1[OF assms(1-4)])
  also have "\<dots> = descend_dir2 iri seq dir2"
    using assms(5-7) by (simp add: descend_dir1_def)
  finally show ?thesis .
qed

lemma descent_reaches_archive:
  assumes "parse_identifier iri = Inr (p, seq)"
    and "listdir data_root = Inr names1"
    and "p \<in> set names1"
    and "dir1 = path_join data_root p"
    and "listdir dir1 = Inr names2"
    and "select_shard seq names2 = Inr (Some n2)"
    and "dir2 = path_join dir1 n2"
    and "listdir dir2 = Inr names3"
    and "select_shard seq (filter isdigit names3) = Inr (Some n3)"
    and "dir3 = path_join dir2 n3"
    and "path_join (path_join dir3 ''prov'') ''se.zip'' = Some (ZipFile members)"
    and "map_of members ''se.json'' = Some (Some (JArr objs))"
  shows "get_provenance_graph iri data_root = scan_data iri objs"
proof -
  have "get_provenance_graph iri data_root = descend_dir2 iri seq dir2"
    by (rule descent_reaches_dir2[OF assms(1-7)])
  also have "\<dots> = open_archive iri dir3"
    using assms(8-10) by (simp add: descend_dir2_def)
  also have "\<dots> = scan_data iri objs"
    using assms(11,12) by (simp add: open_archive_def)
  finally show ?thesis .
qed

lemma py_int_Nil: "py_int [] = None"
  by (simp add: py_int_def py_strip_def)

lemma map_of_insert_other:
  "name \<noteq> k \<Longrightarrow> map_of (before @ (name, x) # after) k = map_of (before @ after) k"
  by (induction before) auto

lemma parse_identifier_last_segment:
  "CHR ''/'' \<notin> set d \<Longrightarrow> parse_identifier (p @ CHR ''/'' # d) = parse_identifier d"
  by (simp add: parse_identifier_def last_py_split_append py_split_plain)

subsection \<open>Names written with the digits 0 to 9\<close>

lemma is_decimal_not_space: "is_decimal c \<Longrightarrow> \<not> py_space c"
  by (auto simp: is_decimal_def py_space_def)

lemma is_decimal_not_sign:
  "is_decimal c \<Longrightarrow> c \<noteq> CHR ''+'' \<and> c \<noteq> CHR ''-'' \<and> c \<noteq> CHR ''_''"
  by (auto simp: is_decimal_def)

lemma parse_digits_decimal:
  "list_all is_decimal cs \<Longrightarrow> parse_digits acc cs \<noteq> None"
  by (induction acc cs rule: parse_digits.induct) (auto simp: is_decimal_not_sign)

lemma py_strip_decimal:
  assumes "s \<noteq> []" and "list_all is_decimal s"
  shows "py_strip s = s"
proof -
  have "\<not> py_space (hd s)" using assms by (cases s) (auto simp: is_decimal_not_space)
  then have a: "dropWhile py_space s = s" using assms(1) by (cases s) auto
  have "\<not> py_space (last s)" using assms by (auto simp: list_all_iff is_decimal_not_space)
  then have "\<not> py_space (hd (rev s))" using assms(1) by (simp add: hd_rev)
  then have "dropWhile py_space (rev s) = rev s" using assms(1) by (cases "rev s") auto
  with a show ?thesis by (simp add: py_strip_def)
qed

lemma py_int_decimal:
  assumes "s \<noteq> []" and "list_all is_decimal s" and "length s \<le> int_max_str_digits"
  shows "py_int s \<noteq> None"
proof -
  obtain c cs where s: "s = c # cs" using assms(1) by (cases s) auto
  have c: "is_decimal c" and cs: "list_all is_decimal cs" using assms(2) s by auto
  have "filter is_decimal s = s" using assms(2) by (simp add: list_all_iff)
  then have f: "\<not> int_max_str_digits < length (filter is_decimal (c # cs))"
    using assms(3) s by simp
  have "parse_unsigned s \<noteq> None"
    unfolding parse_unsigned_def s using c f parse_digits_decimal[OF cs, of "digit_val c"]
    by (simp del: filter.simps)
  then show ?thesis
    using py_strip_decimal[OF assms(1,2)] is_decimal_not_sign[OF c] by (auto simp: py_int_def s)
qed

section \<open>The claims\<close>

text \<open>
  C1. Round trip. Let the identifier \<open>X\<close> parse, let the descent select, by the rule of
  the two sorted listings, a level-3 directory whose archive \<^verbatim>\<open>prov/se.zip\<close> has a member
  \<^verbatim>\<open>se.json\<close> holding the list \<open>objs\<close>, and let \<open>obj\<close> be an element of \<open>objs\<close> whose
  \<^verbatim>\<open>@id\<close> is \<open>X\<close> followed by \<^verbatim>\<open>/prov/\<close>. Then the call returns \<open>obj\<close> itself. The two last
  hypotheses are the data model of the archive: every element is a dict that carries an
  \<^verbatim>\<open>@id\<close>, and the elements with the \<^verbatim>\<open>@id\<close> asked for are all equal to \<open>obj\<close>.
\<close>

theorem C1_round_trip:
  assumes "parse_identifier X = Inr (supplier_prefix, sequential_number)"
    and "listdir data_root = Inr names1"
    and "supplier_prefix \<in> set names1"
    and "dir1_path = path_join data_root supplier_prefix"
    and "listdir dir1_path = Inr names2"
    and "select_shard sequential_number names2 = Inr (Some subdir)"
    and "dir2_path = path_join dir1_path subdir"
    and "listdir dir2_path = Inr names3"
    and "select_shard sequential_number (filter isdigit names3) = Inr (Some subsubdir)"
    and "dir3_path = path_join dir2_path subsubdir"
    and "path_join (path_join dir3_path ''prov'') ''se.zip'' = Some (ZipFile members)"
    and "map_of members ''se.json'' = Some (Some (JArr objs))"
    and "obj \<in> set objs"
    and "subscript_id obj = Inr (JStr (X @ ''/prov/''))"
    and "\<forall>x\<in>set objs. \<exists>v. subscript_id x = Inr v"
    and "\<forall>x\<in>set objs. subscript_id x = Inr (JStr (X @ ''/prov/'')) \<longrightarrow> x = obj"
  shows "get_provenance_graph X data_root = Inr (Some obj)"
proof -
  have "get_provenance_graph X data_root = scan_data X objs"
    by (rule descent_reaches_archive[OF assms(1-12)])
  also have "\<dots> = Inr (Some obj)"
    by (rule scan_data_unique[OF assms(13-16)])
  finally show ?thesis .
qed

theorem C1_round_trip_witness:
  "get_provenance_graph ''https://w3id.org/oc/meta/br/0605200''
     (Some (mixed_root_tree ''https://w3id.org/oc/meta/br/0605201''
                            ''https://w3id.org/oc/meta/br/0605200''))
   = Inr (Some (prov_object ''https://w3id.org/oc/meta/br/0605200'' ''wanted''))"
proof -
  let ?X = "''https://w3id.org/oc/meta/br/0605200''"
  let ?Y = "''https://w3id.org/oc/meta/br/0605201''"
  let ?root = "Some (mixed_root_tree ?Y ?X)"
  let ?objs = "[prov_object ?Y ''other'', prov_object ?X ''wanted'']"
  have h1: "parse_identifier ?X = Inr (''060'', 5200)"
    by code_simp
  have h2: "listdir ?root = Inr [''readme'', ''index.json'', ''060'']"
    by (simp add: mixed_root_tree_def)
  have h3: "''060'' \<in> set [''readme'', ''index.json'', ''060'']"
    by simp
  have h5: "listdir (path_join ?root ''060'') = Inr [''6000'']"
    by (simp add: mixed_root_tree_def)
  have h6: "select_shard 5200 [''6000''] = Inr (Some ''6000'')"
    by code_simp
  have h8: "listdir (path_join (path_join ?root ''060'') ''6000'') = Inr [''5300'']"
    by (simp add: mixed_root_tree_def)
  have h9: "select_shard 5200 (filter isdigit [''5300'']) = Inr (Some ''5300'')"
    by code_simp
  have h11: "path_join (path_join (path_join (path_join (path_join ?root ''060'') ''6000'')
               ''5300'') ''prov'') ''se.zip'' = Some (ZipFile [(''se.json'', Some (JArr ?objs))])"
    by (simp add: mixed_root_tree_def shard_def)
  have h12: "map_of [(''se.json'', Some (JArr ?objs))] ''se.json'' = Some (Some (JArr ?objs))"
    by simp
  have h13: "prov_object ?X ''wanted'' \<in> set ?objs"
    by simp
  have h14: "subscript_id (prov_object ?X ''wanted'') = Inr (JStr (?X @ ''/prov/''))"
    by (simp add: prov_object_def)
  have h15: "\<forall>x\<in>set ?objs. \<exists>v. subscript_id x = Inr v"
    by (simp add: prov_object_def)
  have h16: "\<forall>x\<in>set ?objs. subscript_id x = Inr (JStr (?X @ ''/prov/'')) \<longrightarrow>
               x = prov_object ?X ''wanted''"
    by (simp add: prov_object_def)
  show ?thesis
    by (rule C1_round_trip[OF h1 h2 h3 refl h5 h6 refl h8 h9 refl h11 h12 h13 h14 h15 h16])
qed

text \<open>
  C2. Level-2 selection. Let the identifier parse, let the supplier prefix be listed in
  \<^verbatim>\<open>data_root\<close>, and let \<^verbatim>\<open>int\<close> accept every name listed in the level-1 directory. If some
  name has a value above the sequential number, the call descends into a name whose
  value is the least of those above it (the first such name of the listing sorted by
  value): its result is that of the level-3 loop in that directory. If no name has a
  value above the sequential number, the call returns \<^verbatim>\<open>None\<close> (not found) and raises
  nothing. With the names 1000, 100 and 500, number 250 selects 500 and number 1000
  finds nothing: this is the instance that follows the theorem.
\<close>

theorem C2_level2_selection:
  assumes "parse_identifier entity_iri = Inr (supplier_prefix, sequential_number)"
    and "listdir data_root = Inr names1"
    and "supplier_prefix \<in> set names1"
    and "dir1_path = path_join data_root supplier_prefix"
    and "listdir dir1_path = Inr names2"
    and "\<forall>n\<in>set names2. py_int n \<noteq> None"
  shows "if \<exists>n\<in>set names2. \<exists>k. py_int n = Some k \<and> sequential_number < k
         then \<exists>subdir k. subdir \<in> set names2 \<and> py_int subdir = Some k \<and> sequential_number < k
                \<and> (\<forall>m\<in>set names2. \<forall>j. py_int m = Some j \<and> sequential_number < j \<longrightarrow> k \<le> j)
                \<and> select_shard sequential_number names2 = Inr (Some subdir)
                \<and> get_provenance_graph entity_iri data_root
                    = descend_dir2 entity_iri sequential_number (path_join dir1_path subdir)
         else select_shard sequential_number names2 = Inr None
                \<and> get_provenance_graph entity_iri data_root = Inr None"
proof -
  have g: "get_provenance_graph entity_iri data_root
             = descend_dir1 entity_iri sequential_number dir1_path"
    by (rule descent_reaches_dir1[OF assms(1-4)])
  from select_shard_parsed[OF assms(6), of sequential_number]
  consider
    (none) "select_shard sequential_number names2 = Inr None"
           "\<forall>n\<in>set names2. \<forall>k. py_int n = Some k \<longrightarrow> k \<le> sequential_number"
  | (some) subdir k where
           "select_shard sequential_number names2 = Inr (Some subdir)"
           "subdir \<in> set names2" "py_int subdir = Some k" "sequential_number < k"
           "\<forall>m\<in>set names2. \<forall>j. py_int m = Some j \<and> sequential_number < j \<longrightarrow> k \<le> j"
    by blast
  then show ?thesis
  proof cases
    case none
    have no: "\<not> (\<exists>n\<in>set names2. \<exists>k. py_int n = Some k \<and> sequential_number < k)"
      using none(2) by fastforce
    have "descend_dir1 entity_iri sequential_number dir1_path = Inr None"
      using assms(5) none(1) by (simp add: descend_dir1_def)
    with g no none(1) show ?thesis by simp
  next
    case some
    have yes: "\<exists>n\<in>set names2. \<exists>k. py_int n = Some k \<and> sequential_number < k"
      using some(2,3,4) by blast
    have "descend_dir1 entity_iri sequential_number dir1_path
            = descend_dir2 entity_iri sequential_number (path_join dir1_path subdir)"
      using assms(5) some(1) by (simp add: descend_dir1_def)
    with g have "get_provenance_graph entity_iri data_root
            = descend_dir2 entity_iri sequential_number (path_join dir1_path subdir)"
      by simp
    with some have "\<exists>subdir k. subdir \<in> set names2 \<and> py_int subdir = Some k \<and> sequential_number < k
                \<and> (\<forall>m\<in>set names2. \<forall>j. py_int m = Some j \<and> sequential_number < j \<longrightarrow> k \<le> j)
                \<and> select_shard sequential_number names2 = Inr (Some subdir)
                \<and> get_provenance_graph entity_iri data_root
                    = descend_dir2 entity_iri sequential_number (path_join dir1_path subdir)"
      by blast
    with yes show ?thesis by simp
  qed
qed

theorem C2_level2_selection_witness:
  "select_shard 250 [''1000'', ''100'', ''500''] = Inr (Some ''500'')
   \<and> get_provenance_graph ''https://w3id.org/oc/meta/br/060250''
        (Some (level2_tree ''https://w3id.org/oc/meta/br/060250''))
      = Inr (Some (prov_object ''https://w3id.org/oc/meta/br/060250'' ''500''))
   \<and> select_shard 1000 [''1000'', ''100'', ''500''] = Inr None
   \<and> get_provenance_graph ''https://w3id.org/oc/meta/br/0601000''
        (Some (level2_tree ''https://w3id.org/oc/meta/br/0601000'')) = Inr None"
proof -
  let ?A = "''https://w3id.org/oc/meta/br/060250''"
  let ?B = "''https://w3id.org/oc/meta/br/0601000''"
  let ?names = "[''1000'', ''100'', ''500'']"
  have a1: "parse_identifier ?A = Inr (''060'', 250)" by code_simp
  have b1: "parse_identifier ?B = Inr (''060'', 1000)" by code_simp
  have a2: "listdir (Some (level2_tree ?A)) = Inr [''060'']"
    by (simp add: level2_tree_def)
  have b2: "listdir (Some (level2_tree ?B)) = Inr [''060'']"
    by (simp add: level2_tree_def)
  have h3: "''060'' \<in> set [''060'']" by simp
  have a5: "listdir (path_join (Some (level2_tree ?A)) ''060'') = Inr ?names"
    by (simp add: level2_tree_def)
  have b5: "listdir (path_join (Some (level2_tree ?B)) ''060'') = Inr ?names"
    by (simp add: level2_tree_def)
  have p1: "py_int ''1000'' = Some 1000" by code_simp
  have p2: "py_int ''100'' = Some 100" by code_simp
  have p3: "py_int ''500'' = Some 500" by code_simp
  have h6: "\<forall>n\<in>set ?names. py_int n \<noteq> None"
    using p1 p2 p3 by simp
  have sa: "select_shard 250 ?names = Inr (Some ''500'')" by code_simp
  have sb: "select_shard 1000 ?names = Inr None" by code_simp
  have da: "descend_dir2 ?A 250 (path_join (path_join (Some (level2_tree ?A)) ''060'') ''500'')
              = Inr (Some (prov_object ?A ''500''))"
    by code_simp
  have ya: "\<exists>n\<in>set ?names. \<exists>k. py_int n = Some k \<and> 250 < k"
    using p3 by simp
  have nb: "\<not> (\<exists>n\<in>set ?names. \<exists>k. py_int n = Some k \<and> 1000 < k)"
    using p1 p2 p3 by simp
  from C2_level2_selection[OF a1 a2 h3 refl a5 h6] ya sa
  have ra: "get_provenance_graph ?A (Some (level2_tree ?A))
              = descend_dir2 ?A 250 (path_join (path_join (Some (level2_tree ?A)) ''060'') ''500'')"
    by auto
  from C2_level2_selection[OF b1 b2 h3 refl b5 h6] nb
  have rb: "get_provenance_graph ?B (Some (level2_tree ?B)) = Inr None"
    by simp
  show ?thesis
    using sa sb ra da rb by simp
qed

text \<open>
  The last segment \<open>123\<close> has no \<open>0\<close> from index 1 on. \<^verbatim>\<open>find\<close> answers \<open>-1\<close>, the
  slice \<^verbatim>\<open>digits[:0]\<close> is the empty prefix, \<^verbatim>\<open>int('123')\<close> succeeds, no directory has the
  empty name, and the call returns \<^verbatim>\<open>None\<close>: nothing is raised.
\<close>

theorem C3_counterexample:
  "last (py_split CHR ''/'' ''https://w3id.org/oc/meta/br/123'') = ''123''
   \<and> py_find ''123'' CHR ''0'' 1 = - 1
   \<and> get_provenance_graph ''https://w3id.org/oc/meta/br/123''
        (Some (scenario_tree ''https://w3id.org/oc/meta/br/123'')) = Inr None"
  by code_simp

text \<open>
  C3, as the code has it. For an IRI whose last segment has no \<open>0\<close> from index 1 on, the
  supplier prefix is the empty string and the sequential number is \<^verbatim>\<open>int\<close> of the whole
  segment. The call raises ValueError, before any file is touched, exactly in case \<^verbatim>\<open>int\<close>
  refuses the segment. In case \<^verbatim>\<open>int\<close> accepts it, the identifier raises nothing, and the
  call returns \<^verbatim>\<open>None\<close> for every \<^verbatim>\<open>data_root\<close> that can be listed and lists no empty name.
\<close>

theorem C3_segment_without_zero:
  assumes "digits = last (py_split CHR ''/'' entity_iri)"
    and "py_find digits CHR ''0'' 1 = - 1"
  shows "(py_int digits = None \<longrightarrow> get_provenance_graph entity_iri data_root = Inl ValueError)
       \<and> (\<forall>n. py_int digits = Some n \<longrightarrow> parse_identifier entity_iri = Inr ([], n))
       \<and> (py_int digits \<noteq> None \<and> listdir data_root = Inr names \<and> [] \<notin> set names
            \<longrightarrow> get_provenance_graph entity_iri data_root = Inr None)"
proof -
  have p: "parse_identifier entity_iri
             = (case py_int digits of None \<Rightarrow> Inl ValueError | Some n \<Rightarrow> Inr ([], n))"
    using assms by (simp add: parse_identifier_def removeprefix_def)
  show ?thesis
  proof (intro conjI impI allI)
    assume "py_int digits = None"
    with p show "get_provenance_graph entity_iri data_root = Inl ValueError"
      by (simp add: get_provenance_graph_def)
  next
    fix n assume "py_int digits = Some n"
    with p show "parse_identifier entity_iri = Inr ([], n)" by simp
  next
    assume h: "py_int digits \<noteq> None \<and> listdir data_root = Inr names \<and> [] \<notin> set names"
    then obtain n where "py_int digits = Some n" by auto
    with p have "parse_identifier entity_iri = Inr ([], n)" by simp
    with h show "get_provenance_graph entity_iri data_root = Inr None"
      by (simp add: get_provenance_graph_def scan_root_eq)
  qed
qed

theorem C3_segment_without_zero_witness:
  "py_int ''12a'' = None
   \<and> get_provenance_graph ''https://w3id.org/oc/meta/br/12a'' None = Inl ValueError
   \<and> py_int ''123'' = Some 123
   \<and> parse_identifier ''https://w3id.org/oc/meta/br/123'' = Inr ([], 123)
   \<and> get_provenance_graph ''https://w3id.org/oc/meta/br/123''
        (Some (scenario_tree ''https://w3id.org/oc/meta/br/123'')) = Inr None"
proof -
  have a1: "''12a'' = last (py_split CHR ''/'' ''https://w3id.org/oc/meta/br/12a'')"
    by code_simp
  have a2: "py_find ''12a'' CHR ''0'' 1 = - 1" by code_simp
  have a3: "py_int ''12a'' = None" by code_simp
  have b1: "''123'' = last (py_split CHR ''/'' ''https://w3id.org/oc/meta/br/123'')"
    by code_simp
  have b2: "py_find ''123'' CHR ''0'' 1 = - 1" by code_simp
  have b3: "py_int ''123'' = Some 123" by code_simp
  have b4: "listdir (Some (scenario_tree ''https://w3id.org/oc/meta/br/123'')) = Inr [''060'']"
    by (simp add: scenario_tree_def)
  have b5: "[] \<notin> set [''060'']" by simp
  show ?thesis
    using a3 b3 b4 b5
      C3_segment_without_zero[OF a1 a2, of None]
      C3_segment_without_zero[OF b1 b2,
        of "Some (scenario_tree ''https://w3id.org/oc/meta/br/123'')" "[''060'']"]
    by simp
qed

text \<open>
  C4. The scenario of the segment \<open>0605200\<close>, for every IRI that ends with
  \<^verbatim>\<open>/br/0605200\<close>. The first \<open>0\<close> from index 1 on is at index 2, the supplier prefix is
  \<open>060\<close> and the sequential number 5200. Of the level-2 names 6000 and 1000 the descent
  selects 6000, of the level-3 names 5300 and 5100 it selects 5300, and the call on the
  tree returns the object of the shard \<open>060/6000/5300\<close>, not those of the three others.
\<close>

theorem C4_scenario:
  "py_find ''0605200'' CHR ''0'' 1 = 2
   \<and> parse_identifier (base @ ''/br/0605200'') = Inr (''060'', 5200)
   \<and> select_shard 5200 [''6000'', ''1000''] = Inr (Some ''6000'')
   \<and> select_shard 5200 (filter isdigit [''5300'', ''5100'']) = Inr (Some ''5300'')
   \<and> get_provenance_graph (base @ ''/br/0605200'')
        (Some (scenario_tree (base @ ''/br/0605200'')))
      = Inr (Some (prov_object (base @ ''/br/0605200'') ''6000/5300''))"
proof -
  let ?X = "base @ ''/br/0605200''"
  let ?root = "Some (scenario_tree ?X)"
  let ?objs = "[prov_object ?X ''6000/5300'']"
  have f: "py_find ''0605200'' CHR ''0'' 1 = 2" by code_simp
  have d: "parse_identifier ''0605200'' = Inr (''060'', 5200)" by code_simp
  have x: "?X = (base @ ''/br'') @ CHR ''/'' # ''0605200''" by simp
  have s: "CHR ''/'' \<notin> set ''0605200''" by simp
  have "parse_identifier ((base @ ''/br'') @ CHR ''/'' # ''0605200'') = parse_identifier ''0605200''"
    by (rule parse_identifier_last_segment[OF s])
  with d x have h1: "parse_identifier ?X = Inr (''060'', 5200)" by simp
  have h2: "listdir ?root = Inr [''060'']"
    by (simp add: scenario_tree_def)
  have h3: "''060'' \<in> set [''060'']" by simp
  have h5: "listdir (path_join ?root ''060'') = Inr [''6000'', ''1000'']"
    by (simp add: scenario_tree_def)
  have h6: "select_shard 5200 [''6000'', ''1000''] = Inr (Some ''6000'')"
    by code_simp
  have h8: "listdir (path_join (path_join ?root ''060'') ''6000'') = Inr [''5300'', ''5100'']"
    by (simp add: scenario_tree_def)
  have h9: "select_shard 5200 (filter isdigit [''5300'', ''5100'']) = Inr (Some ''5300'')"
    by code_simp
  have h11: "path_join (path_join (path_join (path_join (path_join ?root ''060'') ''6000'')
               ''5300'') ''prov'') ''se.zip'' = Some (ZipFile [(''se.json'', Some (JArr ?objs))])"
    by (simp add: scenario_tree_def shard_def)
  have h12: "map_of [(''se.json'', Some (JArr ?objs))] ''se.json'' = Some (Some (JArr ?objs))"
    by simp
  have "get_provenance_graph ?X ?root = scan_data ?X ?objs"
    by (rule descent_reaches_archive[OF h1 h2 h3 refl h5 h6 refl h8 h9 refl h11 h12])
  also have "\<dots> = Inr (Some (prov_object ?X ''6000/5300''))"
    by (simp add: prov_object_def)
  finally show ?thesis using f h1 h6 h9 by simp
qed

text \<open>
  C5. Level-3 filtering. Let the descent have arrived in a level-2 directory that lists
  \<open>names3\<close>. Only the names that pass \<^verbatim>\<open>isdigit\<close> take part: the directory descended into
  is such a name, of least value among the \<^verbatim>\<open>isdigit\<close> names whose value is above the
  sequential number, and with no such name the call returns \<^verbatim>\<open>None\<close>. The other names,
  which \<^verbatim>\<open>int\<close> may well refuse, are under no hypothesis at all: they are never converted
  and raise nothing. The hypothesis on the \<^verbatim>\<open>isdigit\<close> names holds for every name written
  with the digits 0 to 9, up to 4300 of them (\<open>py_int_decimal\<close>); it is there for the
  superscript digits, which pass \<^verbatim>\<open>isdigit\<close> and are refused by \<^verbatim>\<open>int\<close>.
\<close>

theorem C5_level3_filter:
  assumes "parse_identifier entity_iri = Inr (supplier_prefix, sequential_number)"
    and "listdir data_root = Inr names1"
    and "supplier_prefix \<in> set names1"
    and "dir1_path = path_join data_root supplier_prefix"
    and "listdir dir1_path = Inr names2"
    and "select_shard sequential_number names2 = Inr (Some subdir)"
    and "dir2_path = path_join dir1_path subdir"
    and "listdir dir2_path = Inr names3"
    and "\<forall>n\<in>set names3. isdigit n \<longrightarrow> py_int n \<noteq> None"
  shows "if \<exists>n\<in>set names3. isdigit n \<and> (\<exists>k. py_int n = Some k \<and> sequential_number < k)
         then \<exists>subsubdir k. subsubdir \<in> set names3 \<and> isdigit subsubdir
                \<and> py_int subsubdir = Some k \<and> sequential_number < k
                \<and> (\<forall>m\<in>set names3. \<forall>j. isdigit m \<and> py_int m = Some j \<and> sequential_number < j
                                       \<longrightarrow> k \<le> j)
                \<and> select_shard sequential_number (filter isdigit names3) = Inr (Some subsubdir)
                \<and> get_provenance_graph entity_iri data_root
                    = open_archive entity_iri (path_join dir2_path subsubdir)
         else select_shard sequential_number (filter isdigit names3) = Inr None
                \<and> get_provenance_graph entity_iri data_root = Inr None"
proof -
  let ?digits = "filter isdigit names3"
  have g: "get_provenance_graph entity_iri data_root
             = descend_dir2 entity_iri sequential_number dir2_path"
    by (rule descent_reaches_dir2[OF assms(1-7)])
  have parsed: "\<forall>n\<in>set ?digits. py_int n \<noteq> None"
    using assms(9) by simp
  from select_shard_parsed[OF parsed, of sequential_number]
  consider
    (none) "select_shard sequential_number ?digits = Inr None"
           "\<forall>n\<in>set ?digits. \<forall>k. py_int n = Some k \<longrightarrow> k \<le> sequential_number"
  | (some) subsubdir k where
           "select_shard sequential_number ?digits = Inr (Some subsubdir)"
           "subsubdir \<in> set ?digits" "py_int subsubdir = Some k" "sequential_number < k"
           "\<forall>m\<in>set ?digits. \<forall>j. py_int m = Some j \<and> sequential_number < j \<longrightarrow> k \<le> j"
    by blast
  then show ?thesis
  proof cases
    case none
    have no: "\<not> (\<exists>n\<in>set names3. isdigit n \<and> (\<exists>k. py_int n = Some k \<and> sequential_number < k))"
      using none(2) by fastforce
    have "descend_dir2 entity_iri sequential_number dir2_path = Inr None"
      using assms(8) none(1) by (simp add: descend_dir2_def)
    with g no none(1) show ?thesis by simp
  next
    case some
    have mem: "subsubdir \<in> set names3" "isdigit subsubdir"
      using some(2) by simp_all
    have yes: "\<exists>n\<in>set names3. isdigit n \<and> (\<exists>k. py_int n = Some k \<and> sequential_number < k)"
      using mem some(3,4) by blast
    have least: "\<forall>m\<in>set names3. \<forall>j. isdigit m \<and> py_int m = Some j \<and> sequential_number < j
                   \<longrightarrow> k \<le> j"
      using some(5) by auto
    have "descend_dir2 entity_iri sequential_number dir2_path
            = open_archive entity_iri (path_join dir2_path subsubdir)"
      using assms(8) some(1) by (simp add: descend_dir2_def)
    with g have "get_provenance_graph entity_iri data_root
            = open_archive entity_iri (path_join dir2_path subsubdir)"
      by simp
    with mem some(1,3,4) least
    have "\<exists>subsubdir k. subsubdir \<in> set names3 \<and> isdigit subsubdir
                \<and> py_int subsubdir = Some k \<and> sequential_number < k
                \<and> (\<forall>m\<in>set names3. \<forall>j. isdigit m \<and> py_int m = Some j \<and> sequential_number < j
                                       \<longrightarrow> k \<le> j)
                \<and> select_shard sequential_number (filter isdigit names3) = Inr (Some subsubdir)
                \<and> get_provenance_graph entity_iri data_root
                    = open_archive entity_iri (path_join dir2_path subsubdir)"
      by blast
    with yes show ?thesis by simp
  qed
qed

theorem C5_level3_filter_witness:
  "\<not> isdigit ''prov'' \<and> \<not> isdigit ''readme'' \<and> py_int ''prov'' = None
   \<and> select_shard 15 (filter isdigit [''prov'', ''20'', ''readme'', ''10'']) = Inr (Some ''20'')
   \<and> get_provenance_graph ''https://w3id.org/oc/meta/br/06015''
        (Some (level3_tree ''https://w3id.org/oc/meta/br/06015''))
      = Inr (Some (prov_object ''https://w3id.org/oc/meta/br/06015'' ''20''))
   \<and> select_shard 20 (filter isdigit [''prov'', ''20'', ''readme'', ''10'']) = Inr None
   \<and> get_provenance_graph ''https://w3id.org/oc/meta/br/06020''
        (Some (level3_tree ''https://w3id.org/oc/meta/br/06020'')) = Inr None"
proof -
  let ?A = "''https://w3id.org/oc/meta/br/06015''"
  let ?B = "''https://w3id.org/oc/meta/br/06020''"
  let ?names = "[''prov'', ''20'', ''readme'', ''10'']"
  have a1: "parse_identifier ?A = Inr (''060'', 15)" by code_simp
  have b1: "parse_identifier ?B = Inr (''060'', 20)" by code_simp
  have a2: "listdir (Some (level3_tree ?A)) = Inr [''060'']"
    by (simp add: level3_tree_def)
  have b2: "listdir (Some (level3_tree ?B)) = Inr [''060'']"
    by (simp add: level3_tree_def)
  have h3: "''060'' \<in> set [''060'']" by simp
  have a5: "listdir (path_join (Some (level3_tree ?A)) ''060'') = Inr [''100'']"
    by (simp add: level3_tree_def)
  have b5: "listdir (path_join (Some (level3_tree ?B)) ''060'') = Inr [''100'']"
    by (simp add: level3_tree_def)
  have a6: "select_shard 15 [''100''] = Inr (Some ''100'')" by code_simp
  have b6: "select_shard 20 [''100''] = Inr (Some ''100'')" by code_simp
  have a8: "listdir (path_join (path_join (Some (level3_tree ?A)) ''060'') ''100'') = Inr ?names"
    by (simp add: level3_tree_def level3_entries_def)
  have b8: "listdir (path_join (path_join (Some (level3_tree ?B)) ''060'') ''100'') = Inr ?names"
    by (simp add: level3_tree_def level3_entries_def)
  have d1: "\<not> isdigit ''prov''" by code_simp
  have d2: "isdigit ''20''" by code_simp
  have d3: "\<not> isdigit ''readme''" by code_simp
  have d4: "isdigit ''10''" by code_simp
  have p1: "py_int ''prov'' = None" by code_simp
  have p2: "py_int ''20'' = Some 20" by code_simp
  have p4: "py_int ''10'' = Some 10" by code_simp
  have h9: "\<forall>n\<in>set ?names. isdigit n \<longrightarrow> py_int n \<noteq> None"
    using d1 d3 p2 p4 by simp
  have sa: "select_shard 15 (filter isdigit ?names) = Inr (Some ''20'')" by code_simp
  have sb: "select_shard 20 (filter isdigit ?names) = Inr None" by code_simp
  have oa: "open_archive ?A
              (path_join (path_join (path_join (Some (level3_tree ?A)) ''060'') ''100'') ''20'')
              = Inr (Some (prov_object ?A ''20''))"
    by code_simp
  have ya: "\<exists>n\<in>set ?names. isdigit n \<and> (\<exists>k. py_int n = Some k \<and> 15 < k)"
    using d2 p2 by simp
  have nb: "\<not> (\<exists>n\<in>set ?names. isdigit n \<and> (\<exists>k. py_int n = Some k \<and> 20 < k))"
    using d1 d3 p2 p4 by simp
  from C5_level3_filter[OF a1 a2 h3 refl a5 a6 refl a8 h9] ya sa
  have ra: "get_provenance_graph ?A (Some (level3_tree ?A))
              = open_archive ?A
                  (path_join (path_join (path_join (Some (level3_tree ?A)) ''060'') ''100'') ''20'')"
    by auto
  from C5_level3_filter[OF b1 b2 h3 refl b5 b6 refl b8 h9] nb
  have rb: "get_provenance_graph ?B (Some (level3_tree ?B)) = Inr None"
    by simp
  show ?thesis
    using d1 d3 p1 sa sb ra oa rb by simp
qed

text \<open>
  C6. When the descent arrives at the archive of the selected level-3 directory and no
  element of the list in \<^verbatim>\<open>se.json\<close> has the \<^verbatim>\<open>@id\<close> asked for, the call returns \<^verbatim>\<open>None\<close>
  (not found) and raises nothing. As the data model has it, every element is a dict that
  carries an \<^verbatim>\<open>@id\<close>.
\<close>

theorem C6_no_matching_object:
  assumes "parse_identifier entity_iri = Inr (supplier_prefix, sequential_number)"
    and "listdir data_root = Inr names1"
    and "supplier_prefix \<in> set names1"
    and "dir1_path = path_join data_root supplier_prefix"
    and "listdir dir1_path = Inr names2"
    and "select_shard sequential_number names2 = Inr (Some subdir)"
    and "dir2_path = path_join dir1_path subdir"
    and "listdir dir2_path = Inr names3"
    and "select_shard sequential_number (filter isdigit names3) = Inr (Some subsubdir)"
    and "dir3_path = path_join dir2_path subsubdir"
    and "path_join (path_join dir3_path ''prov'') ''se.zip'' = Some (ZipFile members)"
    and "map_of members ''se.json'' = Some (Some (JArr objs))"
    and "\<forall>x\<in>set objs. \<exists>v. subscript_id x = Inr v \<and> v \<noteq> JStr (entity_iri @ ''/prov/'')"
  shows "get_provenance_graph entity_iri data_root = Inr None"
proof -
  have "get_provenance_graph entity_iri data_root = scan_data entity_iri objs"
    by (rule descent_reaches_archive[OF assms(1-12)])
  also have "\<dots> = Inr None"
    by (rule scan_data_none[OF assms(13)])
  finally show ?thesis .
qed

theorem C6_no_matching_object_witness:
  "get_provenance_graph ''https://w3id.org/oc/meta/br/0605202''
     (Some (mixed_root_tree ''https://w3id.org/oc/meta/br/0605201''
                            ''https://w3id.org/oc/meta/br/0605200''))
   = Inr None"
proof -
  let ?X = "''https://w3id.org/oc/meta/br/0605200''"
  let ?Y = "''https://w3id.org/oc/meta/br/0605201''"
  let ?Z = "''https://w3id.org/oc/meta/br/0605202''"
  let ?root = "Some (mixed_root_tree ?Y ?X)"
  let ?objs = "[prov_object ?Y ''other'', prov_object ?X ''wanted'']"
  have h1: "parse_identifier ?Z = Inr (''060'', 5202)"
    by code_simp
  have h2: "listdir ?root = Inr [''readme'', ''index.json'', ''060'']"
    by (simp add: mixed_root_tree_def)
  have h3: "''060'' \<in> set [''readme'', ''index.json'', ''060'']"
    by simp
  have h5: "listdir (path_join ?root ''060'') = Inr [''6000'']"
    by (simp add: mixed_root_tree_def)
  have h6: "select_shard 5202 [''6000''] = Inr (Some ''6000'')"
    by code_simp
  have h8: "listdir (path_join (path_join ?root ''060'') ''6000'') = Inr [''5300'']"
    by (simp add: mixed_root_tree_def)
  have h9: "select_shard 5202 (filter isdigit [''5300'']) = Inr (Some ''5300'')"
    by code_simp
  have h11: "path_join (path_join (path_join (path_join (path_join ?root ''060'') ''6000'')
               ''5300'') ''prov'') ''se.zip'' = Some (ZipFile [(''se.json'', Some (JArr ?objs))])"
    by (simp add: mixed_root_tree_def shard_def)
  have h12: "map_of [(''se.json'', Some (JArr ?objs))] ''se.json'' = Some (Some (JArr ?objs))"
    by simp
  have h13: "\<forall>x\<in>set ?objs. \<exists>v. subscript_id x = Inr v \<and> v \<noteq> JStr (?Z @ ''/prov/'')"
    by (simp add: prov_object_def)
  show ?thesis
    by (rule C6_no_matching_object[OF h1 h2 h3 refl h5 h6 refl h8 h9 refl h11 h12 h13])
qed

text \<open>
  C7. When the identifier parses and no name listed in \<^verbatim>\<open>data_root\<close> equals the supplier
  prefix, the call returns \<^verbatim>\<open>None\<close> (not found) and raises nothing. The two first
  hypotheses are the input contract: the identifier can be parsed and \<^verbatim>\<open>data_root\<close> is a
  directory that can be listed.
\<close>

theorem C7_no_supplier_directory:
  assumes "parse_identifier entity_iri = Inr (supplier_prefix, sequential_number)"
    and "listdir data_root = Inr names"
    and "supplier_prefix \<notin> set names"
  shows "get_provenance_graph entity_iri data_root = Inr None"
  using assms by (simp add: get_provenance_graph_def scan_root_eq)

theorem C7_no_supplier_directory_witness:
  "parse_identifier ''https://w3id.org/oc/meta/br/0705200'' = Inr (''070'', 5200)
   \<and> ''070'' \<notin> set [''readme'', ''index.json'', ''060'']
   \<and> get_provenance_graph ''https://w3id.org/oc/meta/br/0705200''
         (Some (mixed_root_tree ''https://w3id.org/oc/meta/br/0605201''
                                 ''https://w3id.org/oc/meta/br/0605200'')) = Inr None"
proof -
  have p: "parse_identifier ''https://w3id.org/oc/meta/br/0705200'' = Inr (''070'', 5200)"
    by code_simp
  have l: "listdir (Some (mixed_root_tree ''https://w3id.org/oc/meta/br/0605201''
                                          ''https://w3id.org/oc/meta/br/0605200''))
             = Inr [''readme'', ''index.json'', ''060'']"
    by (simp add: mixed_root_tree_def)
  have n: "''070'' \<notin> set [''readme'', ''index.json'', ''060'']"
    by simp
  show ?thesis
    using p n C7_no_supplier_directory[OF p l n] by simp
qed

text \<open>
  The names listed in \<^verbatim>\<open>data_root\<close> itself are compared with the supplier prefix and
  nothing else: the root below lists \<open>readme\<close> and \<open>index.json\<close>, which \<^verbatim>\<open>int\<close> refuses,
  and the call returns the object all the same.
\<close>

theorem C8_counterexample:
  "listdir (Some (mixed_root_tree ''https://w3id.org/oc/meta/br/0605201''
                                  ''https://w3id.org/oc/meta/br/0605200''))
     = Inr [''readme'', ''index.json'', ''060'']
   \<and> py_int ''readme'' = None \<and> py_int ''index.json'' = None
   \<and> get_provenance_graph ''https://w3id.org/oc/meta/br/0605200''
        (Some (mixed_root_tree ''https://w3id.org/oc/meta/br/0605201''
                               ''https://w3id.org/oc/meta/br/0605200''))
      = Inr (Some (prov_object ''https://w3id.org/oc/meta/br/0605200'' ''wanted''))"
  by code_simp

text \<open>
  C8, as the code has it. Of the three listings, the one of the level-1 directory (the
  level-2 names) is the only one converted without a filter: when the identifier parses
  and the supplier prefix is listed in \<^verbatim>\<open>data_root\<close>, one level-2 name that \<^verbatim>\<open>int\<close> refuses
  makes the call raise ValueError, whatever the other names are. The names listed in
  \<^verbatim>\<open>data_root\<close> are never converted: an entry of any other name than the supplier prefix,
  number or not, put anywhere in \<^verbatim>\<open>data_root\<close>, leaves the outcome of the call as it was.
\<close>

theorem C8_unfiltered_names:
  assumes "parse_identifier entity_iri = Inr (supplier_prefix, sequential_number)"
  shows "(listdir data_root = Inr names1 \<and> supplier_prefix \<in> set names1
            \<and> listdir (path_join data_root supplier_prefix) = Inr names2
            \<and> (\<exists>n\<in>set names2. py_int n = None)
          \<longrightarrow> get_provenance_graph entity_iri data_root = Inl ValueError)
       \<and> (name \<noteq> supplier_prefix
          \<longrightarrow> get_provenance_graph entity_iri (Some (Dir (before @ (name, x) # after)))
              = get_provenance_graph entity_iri (Some (Dir (before @ after))))"
proof (intro conjI impI)
  assume h: "listdir data_root = Inr names1 \<and> supplier_prefix \<in> set names1
            \<and> listdir (path_join data_root supplier_prefix) = Inr names2
            \<and> (\<exists>n\<in>set names2. py_int n = None)"
  then have l1: "listdir data_root = Inr names1" and m: "supplier_prefix \<in> set names1"
    and l2: "listdir (path_join data_root supplier_prefix) = Inr names2"
    and bad: "\<exists>n\<in>set names2. py_int n = None"
    by blast+
  have "get_provenance_graph entity_iri data_root
          = descend_dir1 entity_iri sequential_number (path_join data_root supplier_prefix)"
    by (rule descent_reaches_dir1[OF assms l1 m refl])
  also have "\<dots> = Inl ValueError"
    using l2 select_shard_error[OF bad, of sequential_number] by (simp add: descend_dir1_def)
  finally show "get_provenance_graph entity_iri data_root = Inl ValueError" .
next
  assume ne: "name \<noteq> supplier_prefix"
  have "supplier_prefix \<in> fst ` set (before @ (name, x) # after)
          \<longleftrightarrow> supplier_prefix \<in> fst ` set (before @ after)"
    using ne by auto
  then show "get_provenance_graph entity_iri (Some (Dir (before @ (name, x) # after)))
              = get_provenance_graph entity_iri (Some (Dir (before @ after)))"
    using map_of_insert_other[OF ne, of before x after]
    by (simp only: get_provenance_graph_Dir[OF assms])
qed

theorem C8_unfiltered_names_witness:
  "py_int ''readme'' = None
   \<and> get_provenance_graph ''https://w3id.org/oc/meta/br/0605200''
        (Some (mixed_level2_tree ''https://w3id.org/oc/meta/br/0605200'')) = Inl ValueError
   \<and> get_provenance_graph ''https://w3id.org/oc/meta/br/0605200''
        (Some (Dir ([] @ (''readme'', File) # [(''060'', Dir [])])))
      = get_provenance_graph ''https://w3id.org/oc/meta/br/0605200''
        (Some (Dir ([] @ [(''060'', Dir [])])))"
proof -
  let ?X = "''https://w3id.org/oc/meta/br/0605200''"
  have h1: "parse_identifier ?X = Inr (''060'', 5200)" by code_simp
  have p: "py_int ''readme'' = None" by code_simp
  have a: "listdir (Some (mixed_level2_tree ?X)) = Inr [''060'']
            \<and> ''060'' \<in> set [''060'']
            \<and> listdir (path_join (Some (mixed_level2_tree ?X)) ''060'') = Inr [''6000'', ''readme'']
            \<and> (\<exists>n\<in>set [''6000'', ''readme'']. py_int n = None)"
    using p by (simp add: mixed_level2_tree_def)
  have b: "''readme'' \<noteq> ''060''" by simp
  show ?thesis
    using p a b
      C8_unfiltered_names[OF h1, of "Some (mixed_level2_tree ?X)" "[''060'']"
        "[''6000'', ''readme'']" "''readme''" "[]" File "[(''060'', Dir [])]"]
    by blast
qed

text \<open>
  C9. The call returns one object at most (its result is an error, \<^verbatim>\<open>None\<close> or a single
  object). When the list in \<^verbatim>\<open>se.json\<close> holds several elements with the \<^verbatim>\<open>@id\<close> asked for,
  the one returned is the first of them in the order of the list: \<open>obj\<close> is returned when
  the elements before it carry another \<^verbatim>\<open>@id\<close>, whatever comes after it.
\<close>

theorem C9_first_match:
  assumes "parse_identifier entity_iri = Inr (supplier_prefix, sequential_number)"
    and "listdir data_root = Inr names1"
    and "supplier_prefix \<in> set names1"
    and "dir1_path = path_join data_root supplier_prefix"
    and "listdir dir1_path = Inr names2"
    and "select_shard sequential_number names2 = Inr (Some subdir)"
    and "dir2_path = path_join dir1_path subdir"
    and "listdir dir2_path = Inr names3"
    and "select_shard sequential_number (filter isdigit names3) = Inr (Some subsubdir)"
    and "dir3_path = path_join dir2_path subsubdir"
    and "path_join (path_join dir3_path ''prov'') ''se.zip'' = Some (ZipFile members)"
    and "map_of members ''se.json'' = Some (Some (JArr (before @ obj # after)))"
    and "\<forall>x\<in>set before. \<exists>v. subscript_id x = Inr v \<and> v \<noteq> JStr (entity_iri @ ''/prov/'')"
    and "subscript_id obj = Inr (JStr (entity_iri @ ''/prov/''))"
  shows "get_provenance_graph entity_iri data_root = Inr (Some obj)"
proof -
  have "get_provenance_graph entity_iri data_root = scan_data entity_iri (before @ obj # after)"
    by (rule descent_reaches_archive[OF assms(1-12)])
  also have "\<dots> = Inr (Some obj)"
    by (rule scan_data_first[OF assms(13,14)])
  finally show ?thesis .
qed

theorem C9_first_match_witness:
  "get_provenance_graph ''https://w3id.org/oc/meta/br/0605200''
     (Some (duplicates_tree ''https://w3id.org/oc/meta/br/0605201''
                            ''https://w3id.org/oc/meta/br/0605200''))
   = Inr (Some (prov_object ''https://w3id.org/oc/meta/br/0605200'' ''first''))
   \<and> prov_object ''https://w3id.org/oc/meta/br/0605200'' ''first''
       \<noteq> prov_object ''https://w3id.org/oc/meta/br/0605200'' ''second''"
proof -
  let ?X = "''https://w3id.org/oc/meta/br/0605200''"
  let ?Y = "''https://w3id.org/oc/meta/br/0605201''"
  let ?root = "Some (duplicates_tree ?Y ?X)"
  let ?objs = "[prov_object ?Y ''other''] @ prov_object ?X ''first'' # [prov_object ?X ''second'']"
  have h1: "parse_identifier ?X = Inr (''060'', 5200)"
    by code_simp
  have h2: "listdir ?root = Inr [''060'']"
    by (simp add: duplicates_tree_def)
  have h3: "''060'' \<in> set [''060'']"
    by simp
  have h5: "listdir (path_join ?root ''060'') = Inr [''6000'']"
    by (simp add: duplicates_tree_def)
  have h6: "select_shard 5200 [''6000''] = Inr (Some ''6000'')"
    by code_simp
  have h8: "listdir (path_join (path_join ?root ''060'') ''6000'') = Inr [''5300'']"
    by (simp add: duplicates_tree_def)
  have h9: "select_shard 5200 (filter isdigit [''5300'']) = Inr (Some ''5300'')"
    by code_simp
  have h11: "path_join (path_join (path_join (path_join (path_join ?root ''060'') ''6000'')
               ''5300'') ''prov'') ''se.zip'' = Some (ZipFile [(''se.json'', Some (JArr ?objs))])"
    by (simp add: duplicates_tree_def shard_def)
  have h12: "map_of [(''se.json'', Some (JArr ?objs))] ''se.json'' = Some (Some (JArr ?objs))"
    by simp
  have h13: "\<forall>x\<in>set [prov_object ?Y ''other'']. \<exists>v. subscript_id x = Inr v \<and> v \<noteq> JStr (?X @ ''/prov/'')"
    by (simp add: prov_object_def)
  have h14: "subscript_id (prov_object ?X ''first'') = Inr (JStr (?X @ ''/prov/''))"
    by (simp add: prov_object_def)
  have d: "prov_object ?X ''first'' \<noteq> prov_object ?X ''second''"
    by (simp add: prov_object_def)
  show ?thesis
    using d C9_first_match[OF h1 h2 h3 refl h5 h6 refl h8 h9 refl h11 h12 h13 h14]
    by simp
qed

text \<open>
  C10. When the first \<open>0\<close> from index 1 on is the last character of the IRI's last
  segment, the supplier prefix is the whole segment, the remainder is empty, \<^verbatim>\<open>int('')\<close>
  raises, and the call raises ValueError whatever \<^verbatim>\<open>data_root\<close> holds: it never comes
  to answer not found.
\<close>

theorem C10_prefix_without_number:
  assumes "digits = last (py_split CHR ''/'' entity_iri)"
    and "py_find digits CHR ''0'' 1 = int i"
    and "Suc i = length digits"
  shows "get_provenance_graph entity_iri data_root = Inl ValueError"
proof -
  have "take (nat (py_find digits CHR ''0'' 1 + 1)) digits = digits"
    using assms(2,3) by (simp add: nat_add_distrib)
  then have "parse_identifier entity_iri = Inl ValueError"
    using assms(1) by (simp add: parse_identifier_def Let_def removeprefix_def py_int_Nil)
  then show ?thesis by (simp add: get_provenance_graph_def)
qed

theorem C10_prefix_without_number_witness:
  "py_find ''060'' CHR ''0'' 1 = 2
   \<and> get_provenance_graph ''https://w3id.org/oc/meta/br/060''
        (Some (scenario_tree ''https://w3id.org/oc/meta/br/060'')) = Inl ValueError
   \<and> py_find ''10'' CHR ''0'' 1 = 1
   \<and> get_provenance_graph ''https://w3id.org/oc/meta/br/10''
        (Some (scenario_tree ''https://w3id.org/oc/meta/br/10'')) = Inl ValueError"
proof -
  have d1: "''060'' = last (py_split CHR ''/'' ''https://w3id.org/oc/meta/br/060'')"
    by code_simp
  have f1: "py_find ''060'' CHR ''0'' 1 = int 2" by code_simp
  have l1: "Suc 2 = length ''060''" by simp
  have d2: "''10'' = last (py_split CHR ''/'' ''https://w3id.org/oc/meta/br/10'')"
    by code_simp
  have f2: "py_find ''10'' CHR ''0'' 1 = int 1" by code_simp
  have l2: "Suc 1 = length ''10''" by simp
  show ?thesis
    using f1 f2 C10_prefix_without_number[OF d1 f1 l1] C10_prefix_without_number[OF d2 f2 l2]
    by simp
qed

end
